theory Spec2Isabelle
  imports Main
begin

section \<open>Documents and collections of lib/database.py\<close>

text \<open>
  The store is a MongoDB database: every collection is a sequence of documents in
  natural (insertion) order. A document the code never looks into is a list of
  key/value pairs. Documents whose fields the code reads are records with those
  fields; Python's unbounded integers are \<open>int\<close>.
\<close>

datatype bson = BNull | BBool bool | BInt int | BStr string

type_synonym document = "(string \<times> bson) list"

text \<open>
  A block-scoped document (balance change, trade, market-cap snapshot, transaction
  statistic) carries the \<open>block_index\<close> that produced it. A processed block is
  such a document with a \<open>block_time\<close> (a unix timestamp).
\<close>

record block_scoped =
  block_index :: int
  attrs :: document

record block = block_scoped +
  block_time :: int

text \<open>
  A tracked asset: the fields written by \<open>reset_db_state\<close> (\<open>base_asset\<close>).
  \<open>at_block\<close> is the source's \<open>_at_block\<close>, \<open>oid\<close> its \<open>_id\<close>, \<open>history\<close>
  its \<open>_history\<close>, oldest entry first, so that Python's \<open>pop()\<close> takes the last
  element. A history entry is a snapshot of the fields without \<open>_id\<close> and
  \<open>_history\<close>; \<open>None\<close> is \<open>None\<close>.
\<close>

record asset_ver =
  asset :: string
  owner :: "string option"
  divisible :: bool
  locked :: bool
  total_issued :: "int option"
  at_block :: int

record tracked_asset = asset_ver +
  oid :: nat
  history :: "asset_ver list"

record app_config_doc =
  config_oid :: nat
  db_version :: int
  running_testnet :: bool
  counterpartyd_db_version_major :: "int option"
  counterpartyd_db_version_minor :: "int option"
  counterpartyd_running_testnet :: "bool option"
  last_block_assets_compiled :: int

text \<open>
  The constants of lib/config.py that the two functions read. The module is not
  among the sources, so the constants are parameters.
\<close>

record config =
  BLOCK_FIRST :: int
  DB_VERSION :: int
  TESTNET :: bool
  XCP :: string
  BTC :: string
  LATEST_BLOCK_INIT :: block

text \<open>
  Everything the functions can reach: the collections of \<open>config.mongo_db\<close>, the
  entries of \<open>config.state\<close> (\<open>my_latest_block\<close> is the \<open>block_index\<close> entry of
  that dictionary, the only one read or written here), \<open>cache.blockinfo_cache\<close>,
  the driver's supply of fresh \<open>_id\<close> values, and \<open>ext\<close>, the state owned by the
  extension modules' rollback processors.
\<close>

record 'x state =
  processed_blocks :: "block list"
  tracked_assets :: "tracked_asset list"
  trades :: "block_scoped list"
  balance_changes :: "block_scoped list"
  asset_market_info :: "document list"
  asset_marketcap_history :: "block_scoped list"
  asset_pair_market_info :: "document list"
  pair_market_info :: "document list"
  btc_open_orders :: "document list"
  asset_extended_info :: "document list"
  transaction_stats :: "block_scoped list"
  wallet_stats :: "document list"
  app_config :: "app_config_doc list"
  preferences :: "document list"
  login_history :: "document list"
  chat_handles :: "document list"
  chat_history :: "document list"
  feeds :: "document list"
  mempool :: "document list"
  next_oid :: nat
  my_latest_block :: int
  last_message_index :: int
  caught_up :: bool
  blockinfo_cache :: "int \<rightharpoonup> block"
  ext :: 'x

subsection \<open>Collection operations\<close>

text \<open>\<open>find_one(query)\<close>: the first document in natural order that matches, or \<open>None\<close>.\<close>

definition find_one :: "('a \<Rightarrow> bool) \<Rightarrow> 'a list \<Rightarrow> 'a option" where
  "find_one query coll = List.find query coll"

text \<open>
  \<open>find_one(query, sort=[(key, ASCENDING)])\<close>: the first of the matching documents
  sorted by the key. The sort is stable, so among equal keys the document that
  comes first in natural order is returned. \<open>DESCENDING\<close> sorts by the negated key.
\<close>

definition find_one_ascending :: "('a \<Rightarrow> bool) \<Rightarrow> ('a \<Rightarrow> int) \<Rightarrow> 'a list \<Rightarrow> 'a option" where
  "find_one_ascending query key coll =
     (case sort_key key (filter query coll) of [] \<Rightarrow> None | d # _ \<Rightarrow> Some d)"

definition find_one_descending :: "('a \<Rightarrow> bool) \<Rightarrow> ('a \<Rightarrow> int) \<Rightarrow> 'a list \<Rightarrow> 'a option" where
  "find_one_descending query key coll = find_one_ascending query (\<lambda>d. - key d) coll"

text \<open>\<open>find(query)\<close>: the matching documents, as the cursor yields them.\<close>

definition find_docs :: "('a \<Rightarrow> bool) \<Rightarrow> 'a list \<Rightarrow> 'a list" where
  "find_docs query coll = filter query coll"

text \<open>\<open>remove(query)\<close> deletes every matching document.\<close>

definition remove_docs :: "('a \<Rightarrow> bool) \<Rightarrow> 'a list \<Rightarrow> 'a list" where
  "remove_docs query coll = filter (\<lambda>d. \<not> query d) coll"

text \<open>
  \<open>save(doc)\<close> for a document that has an \<open>_id\<close>: the stored document with that
  \<open>_id\<close> is replaced where it stands; when there is none the document is inserted.
\<close>

fun save_doc :: "tracked_asset \<Rightarrow> tracked_asset list \<Rightarrow> tracked_asset list" where
  "save_doc doc [] = [doc]"
| "save_doc doc (d # coll) = (if oid d = oid doc then doc # coll else d # save_doc doc coll)"

subsection \<open>Errors\<close>

text \<open>
  What the functions raise: the failed \<open>assert\<close>, the \<open>Exception\<close> of \<open>rollback\<close>
  for a block index that is not in the database, the \<open>TypeError\<close> of
  subscripting \<open>None\<close>, and the \<open>IndexError\<close> of indexing an empty cursor.
\<close>

datatype error = AssertionError | Exception_block_missing int | TypeError | IndexError

text \<open>
  The argument of \<open>rollback\<close> as Python passes it: an \<open>int\<close> or \<open>long\<close>, or a
  value of any other type.
\<close>

datatype pyarg = PyInt int | PyOther

section \<open>rollback\<close>

text \<open>
  The \<open>while\<close> loop over \<open>asset['_history']\<close>: pop the newest entry into
  \<open>prev_ver\<close> until the list is empty or the popped entry is at or before
  \<open>max_block_index\<close>. It returns \<open>prev_ver\<close> and what is left of the list.
\<close>

function pop_history :: "int \<Rightarrow> asset_ver option \<Rightarrow> asset_ver list \<Rightarrow> asset_ver option \<times> asset_ver list" where
  "pop_history max_block_index prev_ver hist =
     (if length hist \<noteq> 0 then
        (if at_block (last hist) \<le> max_block_index then (Some (last hist), butlast hist)
         else pop_history max_block_index (Some (last hist)) (butlast hist))
      else (prev_ver, hist))"
  by pat_completeness auto
termination
  by (relation "measure (\<lambda>(m, p, h). length h)") auto

declare pop_history.simps [simp del]

text \<open>\<open>prev_ver\<close> with \<open>_id\<close> and \<open>_history\<close> set, as it is saved.\<close>

definition restored :: "asset_ver \<Rightarrow> nat \<Rightarrow> asset_ver list \<Rightarrow> tracked_asset" where
  "restored prev_ver i hist =
     \<lparr> asset = asset prev_ver, owner = owner prev_ver, divisible = divisible prev_ver,
       locked = locked prev_ver, total_issued = total_issued prev_ver,
       at_block = at_block prev_ver, oid = i, history = hist \<rparr>"

text \<open>The body of the \<open>for\<close> loop, for one asset of the cursor.\<close>

definition prune_asset :: "int \<Rightarrow> tracked_asset list \<Rightarrow> tracked_asset \<Rightarrow> tracked_asset list" where
  "prune_asset max_block_index coll a =
     (case pop_history max_block_index None (history a) of
        (None, hist) \<Rightarrow> coll
      | (Some prev_ver, hist) \<Rightarrow>
          if at_block prev_ver > max_block_index
          then remove_docs (\<lambda>d. asset d = asset a) coll
          else save_doc (restored prev_ver (oid a) hist) coll)"

text \<open>
  The \<open>for\<close> loop: the cursor holds the documents that matched when the query ran,
  and each iteration works on the collection as the earlier ones left it.
\<close>

definition prune_assets :: "int \<Rightarrow> tracked_asset list \<Rightarrow> tracked_asset list" where
  "prune_assets max_block_index coll =
     fold (\<lambda>a c. prune_asset max_block_index c a)
       (find_docs (\<lambda>a. at_block a > max_block_index) coll) coll"

text \<open>
  Modelled from the spec: \<open>RollbackProcessor.run_active_functions\<close> (lib/processor.py
  is not among the sources). The registered hooks run one after the other in
  registration order, each with the same target block, and each performs the
  cleanup of the state its extension owns; they share no mutable state with the
  engine. A hook is a function on the extensions' state.
\<close>

definition run_active_functions :: "(int \<Rightarrow> 'x \<Rightarrow> 'x) list \<Rightarrow> int \<Rightarrow> 'x \<Rightarrow> 'x" where
  "run_active_functions hooks max_block_index x = fold (\<lambda>h. h max_block_index) hooks x"

text \<open>
  \<open>rollback(max_block_index)\<close>. The result is the state the call leaves behind and
  either the error raised or the block returned.
\<close>

definition rollback ::
  "config \<Rightarrow> (int \<Rightarrow> 'x \<Rightarrow> 'x) list \<Rightarrow> pyarg \<Rightarrow> 'x state \<Rightarrow> 'x state \<times> (error + block)" where
  "rollback cfg hooks arg s =
     (case arg of
        PyOther \<Rightarrow> (s, Inl AssertionError)
      | PyInt max_block_index \<Rightarrow>
          if \<not> max_block_index > 0 then (s, Inl AssertionError)
          else if find_one (\<lambda>b. block_index b = max_block_index) (processed_blocks s) = None
          then (s, Inl (Exception_block_missing max_block_index))
          else
            let s1 = s\<lparr> processed_blocks :=
                         remove_docs (\<lambda>d. block_index d > max_block_index) (processed_blocks s) \<rparr>;
                s2 = s1\<lparr> balance_changes :=
                         remove_docs (\<lambda>d. block_index d > max_block_index) (balance_changes s1) \<rparr>;
                s3 = s2\<lparr> trades :=
                         remove_docs (\<lambda>d. block_index d > max_block_index) (trades s2) \<rparr>;
                s4 = s3\<lparr> asset_marketcap_history :=
                         remove_docs (\<lambda>d. block_index d > max_block_index) (asset_marketcap_history s3) \<rparr>;
                s5 = s4\<lparr> transaction_stats :=
                         remove_docs (\<lambda>d. block_index d > max_block_index) (transaction_stats s4) \<rparr>;
                s6 = s5\<lparr> tracked_assets := prune_assets max_block_index (tracked_assets s5) \<rparr>;
                s7 = s6\<lparr> ext := run_active_functions hooks max_block_index (ext s6) \<rparr>;
                s8 = s7\<lparr> last_message_index := - 1 \<rparr>;
                s9 = s8\<lparr> caught_up := False \<rparr>;
                s10 = s9\<lparr> blockinfo_cache := Map.empty \<rparr>;
                latest_block =
                  (case find_one (\<lambda>b. block_index b = max_block_index) (processed_blocks s10) of
                     Some b \<Rightarrow> b
                   | None \<Rightarrow> LATEST_BLOCK_INIT cfg)
            in (s10, Inr latest_block))"

section \<open>get_block_indexes_for_dates\<close>

text \<open>
  \<open>get_block_indexes_for_dates(start_dt, end_dt)\<close>; \<open>None\<close> is an absent argument.
  The last fallback subscripts the result of \<open>find_one\<close>, which is \<open>None\<close> on an
  empty collection: Python raises \<open>TypeError\<close> there.
\<close>

definition get_block_indexes_for_dates ::
  "config \<Rightarrow> 'x state \<Rightarrow> int option \<Rightarrow> int option \<Rightarrow> error + (int \<times> int)" where
  "get_block_indexes_for_dates cfg s start_dt end_dt =
     (let start_block_index =
            (case start_dt of
               None \<Rightarrow> BLOCK_FIRST cfg
             | Some sd \<Rightarrow>
                 (case find_one_descending (\<lambda>b. block_time b \<le> sd) block_time (processed_blocks s) of
                    None \<Rightarrow> BLOCK_FIRST cfg
                  | Some start_block \<Rightarrow> block_index start_block))
      in case end_dt of
           None \<Rightarrow> Inr (start_block_index, my_latest_block s)
         | Some ed \<Rightarrow>
             (case find_one_ascending (\<lambda>b. block_time b \<ge> ed) block_time (processed_blocks s) of
                None \<Rightarrow>
                  (case find_one_descending (\<lambda>b. True) block_index (processed_blocks s) of
                     None \<Rightarrow> Inl TypeError
                   | Some highest \<Rightarrow> Inr (start_block_index, block_index highest))
              | Some end_block \<Rightarrow> Inr (start_block_index, block_index end_block)))"

section \<open>reset_db_state\<close>

text \<open>\<open>drop()\<close> leaves the collection empty.\<close>

definition drop_coll :: "'a list \<Rightarrow> 'a list" where
  "drop_coll coll = []"

text \<open>
  \<open>app_config.update({}, doc, upsert=True)\<close>: the empty query matches every
  document and the update is not \<open>multi\<close>, so the first document is replaced and
  keeps its \<open>_id\<close>; on an empty collection the document is inserted under a fresh
  \<open>_id\<close>. The result is the collection and the next fresh \<open>_id\<close>.
\<close>

definition update_upsert ::
  "(nat \<Rightarrow> app_config_doc) \<Rightarrow> nat \<Rightarrow> app_config_doc list \<Rightarrow> app_config_doc list \<times> nat" where
  "update_upsert doc fresh coll =
     (case coll of
        [] \<Rightarrow> ([doc fresh], Suc fresh)
      | d # ds \<Rightarrow> (doc (config_oid d) # ds, fresh))"

definition default_app_config :: "config \<Rightarrow> nat \<Rightarrow> app_config_doc" where
  "default_app_config cfg i =
     \<lparr> config_oid = i, db_version = DB_VERSION cfg, running_testnet = TESTNET cfg,
       counterpartyd_db_version_major = None, counterpartyd_db_version_minor = None,
       counterpartyd_running_testnet = None,
       last_block_assets_compiled = BLOCK_FIRST cfg \<rparr>"

definition base_asset :: "config \<Rightarrow> string \<Rightarrow> nat \<Rightarrow> tracked_asset" where
  "base_asset cfg name i =
     \<lparr> asset = name, owner = None, divisible = True, locked = False, total_issued = None,
       at_block = BLOCK_FIRST cfg, oid = i, history = [] \<rparr>"

text \<open>\<open>tracked_assets.insert(doc)\<close> for a document without \<open>_id\<close>: it gets a fresh one.\<close>

definition insert_tracked_asset :: "(nat \<Rightarrow> tracked_asset) \<Rightarrow> 'x state \<Rightarrow> 'x state" where
  "insert_tracked_asset doc s =
     s\<lparr> tracked_assets := tracked_assets s @ [doc (next_oid s)], next_oid := Suc (next_oid s) \<rparr>"

text \<open>
  \<open>reset_db_state()\<close>. It returns the first document of \<open>app_config\<close>
  (\<open>find()[0]\<close>, an \<open>IndexError\<close> on an empty cursor).
\<close>

definition reset_db_state :: "config \<Rightarrow> 'x state \<Rightarrow> 'x state \<times> (error + app_config_doc)" where
  "reset_db_state cfg s =
     (let s1 = s\<lparr> processed_blocks := drop_coll (processed_blocks s) \<rparr>;
          s2 = s1\<lparr> tracked_assets := drop_coll (tracked_assets s1) \<rparr>;
          s3 = s2\<lparr> trades := drop_coll (trades s2) \<rparr>;
          s4 = s3\<lparr> balance_changes := drop_coll (balance_changes s3) \<rparr>;
          s5 = s4\<lparr> asset_market_info := drop_coll (asset_market_info s4) \<rparr>;
          s6 = s5\<lparr> asset_marketcap_history := drop_coll (asset_marketcap_history s5) \<rparr>;
          s7 = s6\<lparr> pair_market_info := drop_coll (pair_market_info s6) \<rparr>;
          s8 = s7\<lparr> btc_open_orders := drop_coll (btc_open_orders s7) \<rparr>;
          s9 = s8\<lparr> asset_extended_info := drop_coll (asset_extended_info s8) \<rparr>;
          s10 = s9\<lparr> transaction_stats := drop_coll (transaction_stats s9) \<rparr>;
          s11 = s10\<lparr> feeds := drop_coll (feeds s10) \<rparr>;
          s12 = s11\<lparr> wallet_stats := drop_coll (wallet_stats s11) \<rparr>;
          (coll, fresh) = update_upsert (default_app_config cfg) (next_oid s12) (app_config s12);
          s13 = s12\<lparr> app_config := coll, next_oid := fresh \<rparr>;
          s14 = fold (\<lambda>name. insert_tracked_asset (base_asset cfg name)) [XCP cfg, BTC cfg] s13;
          s15 = s14\<lparr> my_latest_block := 0 \<rparr>;
          s16 = s15\<lparr> last_message_index := - 1 \<rparr>
      in case app_config s13 of
           [] \<Rightarrow> (s16, Inl IndexError)
         | d # _ \<Rightarrow> (s16, Inr d))"

section \<open>Properties of the specification\<close>

text \<open>
  A block-scoped collection cut at block \<open>t\<close>: afterwards it holds no document
  above \<open>t\<close>, and its documents at or below \<open>t\<close> are those it held before, in
  the same order.
\<close>

definition truncated_at :: "int \<Rightarrow> 'a block_scoped_scheme list \<Rightarrow> 'a block_scoped_scheme list \<Rightarrow> bool" where
  "truncated_at t before after \<longleftrightarrow>
     \<not> (\<exists>d \<in> set after. block_index d > t)
     \<and> filter (\<lambda>d. block_index d \<le> t) after = filter (\<lambda>d. block_index d \<le> t) before"

text \<open>
  The blocks that \<open>resolveBlockRange\<close> names: the latest block at or before a time,
  the earliest block at or after a time, and the block with the highest index.
\<close>

definition latest_at_or_before :: "int \<Rightarrow> block list \<Rightarrow> block \<Rightarrow> bool" where
  "latest_at_or_before time blocks b \<longleftrightarrow>
     b \<in> set blocks \<and> block_time b \<le> time
     \<and> (\<forall>b' \<in> set blocks. block_time b' \<le> time \<longrightarrow> block_time b' \<le> block_time b)"

definition earliest_at_or_after :: "int \<Rightarrow> block list \<Rightarrow> block \<Rightarrow> bool" where
  "earliest_at_or_after time blocks b \<longleftrightarrow>
     b \<in> set blocks \<and> time \<le> block_time b
     \<and> (\<forall>b' \<in> set blocks. time \<le> block_time b' \<longrightarrow> block_time b \<le> block_time b')"

definition highest_block :: "block list \<Rightarrow> block \<Rightarrow> bool" where
  "highest_block blocks b \<longleftrightarrow>
     b \<in> set blocks \<and> (\<forall>b' \<in> set blocks. block_index b' \<le> block_index b)"

text \<open>
  The start index as specified: the configured first block when the start time is
  absent or no block is at or before it, otherwise the index of a latest block at or
  before it. The end index as specified: the latest-processed-block counter when the
  end time is absent, otherwise the index of an earliest block at or after it, or of
  a highest block when there is none.
\<close>

definition start_index_resolved :: "config \<Rightarrow> 'x state \<Rightarrow> int option \<Rightarrow> int \<Rightarrow> bool" where
  "start_index_resolved cfg s start_dt si \<longleftrightarrow>
     (case start_dt of
        None \<Rightarrow> si = BLOCK_FIRST cfg
      | Some sd \<Rightarrow>
          if \<exists>b \<in> set (processed_blocks s). block_time b \<le> sd
          then \<exists>b. latest_at_or_before sd (processed_blocks s) b \<and> si = block_index b
          else si = BLOCK_FIRST cfg)"

definition end_index_resolved :: "'x state \<Rightarrow> int option \<Rightarrow> int \<Rightarrow> bool" where
  "end_index_resolved s end_dt ei \<longleftrightarrow>
     (case end_dt of
        None \<Rightarrow> ei = my_latest_block s
      | Some ed \<Rightarrow>
          if \<exists>b \<in> set (processed_blocks s). ed \<le> block_time b
          then \<exists>b. earliest_at_or_after ed (processed_blocks s) b \<and> ei = block_index b
          else \<exists>b. highest_block (processed_blocks s) b \<and> ei = block_index b)"

text \<open>
  The tracked assets as MongoDB and the processing of issuances keep them: \<open>_id\<close> is
  unique, the unique index on \<open>asset\<close> holds, and every history entry is a snapshot of
  the asset that holds it.
\<close>

definition well_formed_assets :: "tracked_asset list \<Rightarrow> bool" where
  "well_formed_assets coll \<longleftrightarrow>
     distinct (map oid coll) \<and> distinct (map asset coll)
     \<and> (\<forall>a \<in> set coll. \<forall>h \<in> set (history a). asset h = asset a)"

section \<open>Auxiliary notions for the loop over the tracked assets\<close>

text \<open>
  What the loop does to one asset of a well-formed collection: \<open>None\<close> when the
  asset is removed, otherwise the document stored under its \<open>_id\<close> afterwards.
\<close>

definition pruned :: "int \<Rightarrow> tracked_asset \<Rightarrow> tracked_asset option" where
  "pruned t a =
     (if at_block a > t then
        (case pop_history t None (history a) of
           (None, hist) \<Rightarrow> Some a
         | (Some prev_ver, hist) \<Rightarrow>
             if at_block prev_ver > t then None else Some (restored prev_ver (oid a) hist))
      else Some a)"

text \<open>
  The invariant of the loop: ids stay unique, and a stored asset above the target
  that still has history is one the cursor has yet to reach.
\<close>

definition pending :: "int \<Rightarrow> tracked_asset list \<Rightarrow> tracked_asset list \<Rightarrow> bool" where
  "pending t cursor coll \<longleftrightarrow>
     distinct (map oid coll)
     \<and> (\<forall>d \<in> set coll. at_block d > t \<and> history d \<noteq> [] \<longrightarrow> d \<in> set cursor)"

section \<open>Example stores\<close>

definition example_config :: config where
  "example_config =
     \<lparr> BLOCK_FIRST = 100, DB_VERSION = 22, TESTNET = False, XCP = ''XCP'', BTC = ''BTC'',
       LATEST_BLOCK_INIT = \<lparr> block_index = 100, attrs = [], block_time = 0 \<rparr> \<rparr>"

definition empty_state :: "nat state" where
  "empty_state =
     \<lparr> processed_blocks = [], tracked_assets = [], trades = [], balance_changes = [],
       asset_market_info = [], asset_marketcap_history = [], asset_pair_market_info = [],
       pair_market_info = [], btc_open_orders = [], asset_extended_info = [],
       transaction_stats = [], wallet_stats = [], app_config = [], preferences = [],
       login_history = [], chat_handles = [], chat_history = [], feeds = [], mempool = [],
       next_oid = 0, my_latest_block = 0, last_message_index = - 1, caught_up = False,
       blockinfo_cache = Map.empty, ext = 0 \<rparr>"

definition blk :: "int \<Rightarrow> int \<Rightarrow> block" where
  "blk i t = \<lparr> block_index = i, attrs = [], block_time = t \<rparr>"

definition rec_at :: "int \<Rightarrow> block_scoped" where
  "rec_at i = \<lparr> block_index = i, attrs = [] \<rparr>"

definition ver :: "string \<Rightarrow> int \<Rightarrow> int \<Rightarrow> asset_ver" where
  "ver name b q =
     \<lparr> asset = name, owner = None, divisible = True, locked = False, total_issued = Some q,
       at_block = b \<rparr>"

definition tracked :: "nat \<Rightarrow> string \<Rightarrow> int \<Rightarrow> int \<Rightarrow> asset_ver list \<Rightarrow> tracked_asset" where
  "tracked i name b q hist = restored (ver name b q) i hist"

text \<open>
  Blocks 100, 200 and 300 are processed. Asset A was issued at block 100 and changed
  at block 300; asset B was issued at block 250 and never changed; asset C was issued
  at block 250 and changed at block 300; asset D was issued at block 100 and changed
  at blocks 150, 250 and 300.
\<close>

definition example_state :: "nat state" where
  "example_state =
     empty_state
       \<lparr> processed_blocks := [blk 100 1000, blk 200 2000, blk 300 3000],
         tracked_assets :=
           [tracked 1 ''A'' 300 10 [ver ''A'' 100 5],
            tracked 2 ''B'' 250 1 [],
            tracked 3 ''C'' 300 7 [ver ''C'' 250 3],
            tracked 4 ''D'' 300 9 [ver ''D'' 100 1, ver ''D'' 150 2, ver ''D'' 250 3]],
         trades := [rec_at 100, rec_at 300],
         balance_changes := [rec_at 300, rec_at 200],
         asset_marketcap_history := [rec_at 200, rec_at 300],
         transaction_stats := [rec_at 300],
         feeds := [[(''source'', BStr ''feed'')]],
         next_oid := 5, my_latest_block := 300, last_message_index := 12, caught_up := True,
         blockinfo_cache := [300 \<mapsto> blk 300 3000] \<rparr>"

text \<open>The example store after \<open>rollback(200)\<close> with one hook that counts its calls.\<close>

definition example_rolled_back :: "nat state" where
  "example_rolled_back =
     example_state
       \<lparr> processed_blocks := [blk 100 1000, blk 200 2000],
         tracked_assets :=
           [tracked 1 ''A'' 100 5 [], tracked 2 ''B'' 250 1 [],
            tracked 4 ''D'' 150 2 [ver ''D'' 100 1]],
         trades := [rec_at 100],
         balance_changes := [rec_at 200],
         asset_marketcap_history := [rec_at 200],
         transaction_stats := [],
         last_message_index := - 1, caught_up := False,
         blockinfo_cache := Map.empty, ext := 1 \<rparr>"

text \<open>
  The scenario of the specification: asset B has no history and is current for
  block 50; the target is block 10.
\<close>

definition scenario_b :: "nat state" where
  "scenario_b =
     empty_state
       \<lparr> processed_blocks := [blk 10 100, blk 50 500],
         tracked_assets := [tracked 1 ''B'' 50 1 []] \<rparr>"

section \<open>Facts about the collection operations\<close>

lemma find_one_ascending_None:
  "find_one_ascending query key coll = None \<longleftrightarrow> \<not> (\<exists>d \<in> set coll. query d)"
proof -
  have "sort_key key (filter query coll) = [] \<longleftrightarrow> filter query coll = []"
    by (metis length_sort length_0_conv)
  then show ?thesis
    by (auto simp: find_one_ascending_def filter_empty_conv split: list.splits)
qed

lemma find_one_ascending_Some:
  assumes "find_one_ascending query key coll = Some d"
  shows "d \<in> set coll" and "query d" and "\<forall>d' \<in> set coll. query d' \<longrightarrow> key d \<le> key d'"
proof -
  from assms obtain ds where eq: "sort_key key (filter query coll) = d # ds"
    by (auto simp: find_one_ascending_def split: list.splits)
  have "set (sort_key key (filter query coll)) = set (filter query coll)" by simp
  with eq have mem: "d \<in> set (filter query coll)" and sub: "set (filter query coll) = set (d # ds)"
    by (metis list.set_intros(1)) (metis eq set_sort)
  from mem show "d \<in> set coll" and "query d" by simp_all
  have "sorted (map key (sort_key key (filter query coll)))" by (rule sorted_sort_key)
  with eq have "\<forall>y \<in> set ds. key d \<le> key y" by simp
  with sub show "\<forall>d' \<in> set coll. query d' \<longrightarrow> key d \<le> key d'" by auto
qed

lemma find_one_descending_None:
  "find_one_descending query key coll = None \<longleftrightarrow> \<not> (\<exists>d \<in> set coll. query d)"
  by (simp add: find_one_descending_def find_one_ascending_None)

lemma find_one_descending_Some:
  assumes "find_one_descending query key coll = Some d"
  shows "d \<in> set coll" and "query d" and "\<forall>d' \<in> set coll. query d' \<longrightarrow> key d' \<le> key d"
  using find_one_ascending_Some [of query "\<lambda>d. - key d" coll d] assms
  by (simp_all add: find_one_descending_def)

lemma find_one_None: "find_one query coll = None \<longleftrightarrow> \<not> (\<exists>d \<in> set coll. query d)"
  by (auto simp: find_one_def find_None_iff)

lemma find_one_Some: "find_one query coll = Some d \<Longrightarrow> d \<in> set coll \<and> query d"
  by (auto simp: find_one_def find_Some_iff)

lemma rollback_eval:
  assumes "0 < t" and "find_one (\<lambda>b. block_index b = t) (processed_blocks s) = Some b0"
  shows "rollback cfg hooks (PyInt t) s =
           (s\<lparr> processed_blocks := remove_docs (\<lambda>d. block_index d > t) (processed_blocks s),
              balance_changes := remove_docs (\<lambda>d. block_index d > t) (balance_changes s),
              trades := remove_docs (\<lambda>d. block_index d > t) (trades s),
              asset_marketcap_history := remove_docs (\<lambda>d. block_index d > t) (asset_marketcap_history s),
              transaction_stats := remove_docs (\<lambda>d. block_index d > t) (transaction_stats s),
              tracked_assets := prune_assets t (tracked_assets s),
              ext := run_active_functions hooks t (ext s),
              last_message_index := - 1,
              caught_up := False,
              blockinfo_cache := Map.empty \<rparr>,
            Inr (case find_one (\<lambda>b. block_index b = t)
                        (remove_docs (\<lambda>d. block_index d > t) (processed_blocks s)) of
                   Some b \<Rightarrow> b | None \<Rightarrow> LATEST_BLOCK_INIT cfg))"
  using assms by (simp add: rollback_def Let_def)

lemma find_one_remove_gt:
  "find_one (\<lambda>b. block_index b = t) (remove_docs (\<lambda>d. block_index d > t) coll)
     = find_one (\<lambda>b. block_index b = (t::int)) coll"
  by (induction coll) (simp_all add: find_one_def remove_docs_def)

lemma truncated_at_remove_docs:
  "truncated_at t coll (remove_docs (\<lambda>d. block_index d > t) coll)"
proof -
  have "remove_docs (\<lambda>d. block_index d > t) coll = filter (\<lambda>d. block_index d \<le> t) coll"
    by (simp add: remove_docs_def not_less)
  then show ?thesis by (auto simp: truncated_at_def)
qed

lemma example_prune:
  "prune_assets 200 (tracked_assets example_state)
     = [tracked 1 ''A'' 100 5 [], tracked 2 ''B'' 250 1 [],
        tracked 4 ''D'' 150 2 [ver ''D'' 100 1]]"
  by (simp add: example_state_def empty_state_def tracked_def ver_def restored_def
        prune_assets_def prune_asset_def find_docs_def remove_docs_def pop_history.simps)

lemma rollback_example:
  "rollback example_config [\<lambda>t x. Suc x] (PyInt 200) example_state
     = (example_rolled_back, Inr (blk 200 2000))"
proof -
  have f: "find_one (\<lambda>b. block_index b = 200) (processed_blocks example_state) = Some (blk 200 2000)"
    by (simp add: example_state_def empty_state_def blk_def find_one_def)
  have p: "0 < (200::int)" by simp
  show ?thesis
    unfolding rollback_eval [OF p f] find_one_remove_gt f example_prune
    by (simp add: example_state_def empty_state_def example_rolled_back_def
          remove_docs_def blk_def rec_at_def run_active_functions_def)
qed

lemma example_blocks:
  "processed_blocks example_state = [blk 100 1000, blk 200 2000, blk 300 3000]"
  by (simp add: example_state_def)

lemma example_assets:
  "tracked_assets example_state =
     [tracked 1 ''A'' 300 10 [ver ''A'' 100 5],
      tracked 2 ''B'' 250 1 [],
      tracked 3 ''C'' 300 7 [ver ''C'' 250 3],
      tracked 4 ''D'' 300 9 [ver ''D'' 100 1, ver ''D'' 150 2, ver ''D'' 250 3]]"
  by (simp add: example_state_def)

lemma example_well_formed: "well_formed_assets (tracked_assets example_state)"
  by (simp add: example_assets well_formed_assets_def tracked_def ver_def restored_def)

lemma example_dates_eval:
  "get_block_indexes_for_dates example_config example_state (Some 2500) (Some 1500) = Inr (200, 200)"
  "get_block_indexes_for_dates example_config example_state None None = Inr (100, 300)"
  "get_block_indexes_for_dates example_config example_state (Some 500) (Some 3500) = Inr (100, 300)"
  "get_block_indexes_for_dates example_config example_state (Some 3000) (Some 1000) = Inr (300, 100)"
  "get_block_indexes_for_dates example_config empty_state None (Some 1000) = Inl TypeError"
  by (simp_all add: get_block_indexes_for_dates_def find_one_descending_def find_one_ascending_def
        example_state_def example_config_def empty_state_def blk_def)

section \<open>Failed preconditions\<close>

text \<open>
  C1. When the target is not a positive integer, or no processed block has that
  block index, \<open>rollback\<close> raises (the assertion error, or the exception that
  names the missing block) and leaves the whole state as it was.
\<close>

theorem rollback_precondition_failure:
  assumes "arg = PyOther \<or> (\<exists>t. arg = PyInt t \<and> (t \<le> 0 \<or> (\<forall>b \<in> set (processed_blocks s). block_index b \<noteq> t)))"
  shows "rollback cfg hooks arg s =
           (s, Inl (case arg of
                      PyOther \<Rightarrow> AssertionError
                    | PyInt t \<Rightarrow> if t \<le> 0 then AssertionError else Exception_block_missing t))"
proof (cases arg)
  case PyOther
  then show ?thesis by (simp add: rollback_def)
next
  case (PyInt t)
  with assms have c: "t \<le> 0 \<or> (\<forall>b \<in> set (processed_blocks s). block_index b \<noteq> t)" by simp
  show ?thesis
  proof (cases "t \<le> 0")
    case True
    with PyInt show ?thesis by (simp add: rollback_def)
  next
    case False
    with c have "\<forall>b \<in> set (processed_blocks s). block_index b \<noteq> t" by simp
    then have "find_one (\<lambda>b. block_index b = t) (processed_blocks s) = None"
      by (simp add: find_one_def find_None_iff)
    with PyInt False show ?thesis by (simp add: rollback_def)
  qed
qed

theorem rollback_precondition_failure_witness:
  "rollback example_config [] (PyInt 500) example_state
       = (example_state, Inl (Exception_block_missing 500))
   \<and> rollback example_config [] (PyInt 0) example_state = (example_state, Inl AssertionError)
   \<and> rollback example_config [] PyOther example_state = (example_state, Inl AssertionError)"
proof -
  have missing: "PyInt 500 = PyOther \<or> (\<exists>t. PyInt 500 = PyInt t \<and>
       (t \<le> 0 \<or> (\<forall>b \<in> set (processed_blocks example_state). block_index b \<noteq> t)))"
    by (simp add: example_blocks blk_def)
  have zero: "PyInt 0 = PyOther \<or> (\<exists>t. PyInt 0 = PyInt t \<and>
       (t \<le> 0 \<or> (\<forall>b \<in> set (processed_blocks example_state). block_index b \<noteq> t)))"
    by simp
  have other: "PyOther = PyOther \<or> (\<exists>t. PyOther = PyInt t \<and>
       (t \<le> 0 \<or> (\<forall>b \<in> set (processed_blocks example_state). block_index b \<noteq> t)))"
    by simp
  from rollback_precondition_failure [OF missing, of example_config "[]"]
    rollback_precondition_failure [OF zero, of example_config "[]"]
    rollback_precondition_failure [OF other, of example_config "[]"]
  show ?thesis by simp
qed

section \<open>What a successful rollback changes\<close>

text \<open>
  C2. After \<open>rollback(t)\<close> with the precondition met, each of the five block-scoped
  collections (processed blocks, balance changes, trades, market-cap history,
  transaction statistics) holds no document with \<open>block_index > t\<close>, and its
  documents with \<open>block_index \<le> t\<close> are the ones it held before.
\<close>

theorem rollback_truncates_block_scoped:
  assumes "0 < t" and "\<exists>b \<in> set (processed_blocks s). block_index b = t"
    and "rollback cfg hooks (PyInt t) s = (s', r)"
  shows "truncated_at t (processed_blocks s) (processed_blocks s')
       \<and> truncated_at t (balance_changes s) (balance_changes s')
       \<and> truncated_at t (trades s) (trades s')
       \<and> truncated_at t (asset_marketcap_history s) (asset_marketcap_history s')
       \<and> truncated_at t (transaction_stats s) (transaction_stats s')"
proof -
  from assms(2) obtain b0 where "find_one (\<lambda>b. block_index b = t) (processed_blocks s) = Some b0"
    using find_one_None [of "\<lambda>b. block_index b = t" "processed_blocks s"] by auto
  from rollback_eval [OF assms(1) this, of cfg hooks] assms(3)
  have "s' = s\<lparr> processed_blocks := remove_docs (\<lambda>d. block_index d > t) (processed_blocks s),
              balance_changes := remove_docs (\<lambda>d. block_index d > t) (balance_changes s),
              trades := remove_docs (\<lambda>d. block_index d > t) (trades s),
              asset_marketcap_history := remove_docs (\<lambda>d. block_index d > t) (asset_marketcap_history s),
              transaction_stats := remove_docs (\<lambda>d. block_index d > t) (transaction_stats s),
              tracked_assets := prune_assets t (tracked_assets s),
              ext := run_active_functions hooks t (ext s),
              last_message_index := - 1,
              caught_up := False,
              blockinfo_cache := Map.empty \<rparr>"
    by simp
  then show ?thesis by (simp add: truncated_at_remove_docs)
qed

theorem rollback_truncates_block_scoped_witness:
  "0 < (200::int) \<and> (\<exists>b \<in> set (processed_blocks example_state). block_index b = 200)
   \<and> rollback example_config [\<lambda>t x. Suc x] (PyInt 200) example_state
        = (example_rolled_back, Inr (blk 200 2000))
   \<and> truncated_at 200 (processed_blocks example_state) (processed_blocks example_rolled_back)
   \<and> truncated_at 200 (balance_changes example_state) (balance_changes example_rolled_back)
   \<and> truncated_at 200 (trades example_state) (trades example_rolled_back)
   \<and> truncated_at 200 (asset_marketcap_history example_state) (asset_marketcap_history example_rolled_back)
   \<and> truncated_at 200 (transaction_stats example_state) (transaction_stats example_rolled_back)"
proof -
  have p: "0 < (200::int)" by simp
  have e: "\<exists>b \<in> set (processed_blocks example_state). block_index b = 200"
    by (simp add: example_state_def empty_state_def blk_def)
  from rollback_truncates_block_scoped [OF p e rollback_example] p e rollback_example
  show ?thesis by simp
qed

text \<open>
  C10. A successful \<open>rollback(t)\<close> leaves the latest-processed-block counter as it
  was; of the process-wide counters it sets \<open>last_message_index\<close> to \<open>-1\<close> and
  clears \<open>caught_up\<close>.
\<close>

theorem rollback_counters:
  assumes "0 < t" and "\<exists>b \<in> set (processed_blocks s). block_index b = t"
    and "rollback cfg hooks (PyInt t) s = (s', r)"
  shows "my_latest_block s' = my_latest_block s \<and> last_message_index s' = - 1 \<and> caught_up s' = False"
proof -
  from assms(2) obtain b0 where "find_one (\<lambda>b. block_index b = t) (processed_blocks s) = Some b0"
    using find_one_None [of "\<lambda>b. block_index b = t" "processed_blocks s"] by auto
  from rollback_eval [OF assms(1) this, of cfg hooks] assms(3) show ?thesis by auto
qed

theorem rollback_counters_witness:
  "0 < (200::int) \<and> (\<exists>b \<in> set (processed_blocks example_state). block_index b = 200)
   \<and> rollback example_config [\<lambda>t x. Suc x] (PyInt 200) example_state
        = (example_rolled_back, Inr (blk 200 2000))
   \<and> my_latest_block example_state = 300
   \<and> my_latest_block example_rolled_back = 300
   \<and> last_message_index example_rolled_back = - 1
   \<and> caught_up example_rolled_back = False"
proof -
  have p: "0 < (200::int)" by simp
  have e: "\<exists>b \<in> set (processed_blocks example_state). block_index b = 200"
    by (simp add: example_state_def empty_state_def blk_def)
  have m: "my_latest_block example_state = 300"
    by (simp add: example_state_def)
  from rollback_counters [OF p e rollback_example] p e rollback_example m
  show ?thesis by simp
qed

section \<open>The loop over an asset's history\<close>

lemma pop_history_Nil: "pop_history t p [] = (p, [])"
  by (simp add: pop_history.simps)

lemma pop_history_snoc:
  "pop_history t p (hs @ [h]) =
     (if at_block h \<le> t then (Some h, hs) else pop_history t (Some h) hs)"
  by (subst pop_history.simps) simp

lemma pop_history_found:
  assumes "at_block h \<le> t" and "\<forall>x \<in> set newer. at_block x > t"
  shows "pop_history t p (older @ h # newer) = (Some h, older)"
  using assms(2)
proof (induction newer arbitrary: p rule: rev_induct)
  case Nil
  with assms(1) show ?case using pop_history_snoc [of t p older h] by simp
next
  case (snoc x xs)
  then have "at_block x > t" and "\<forall>y \<in> set xs. at_block y > t" by simp_all
  then show ?case
    using pop_history_snoc [of t p "older @ h # xs" x] snoc.IH by simp
qed

lemma pop_history_not_found:
  assumes "\<forall>x \<in> set hist. at_block x > t"
  shows "pop_history t p hist = ((case hist of [] \<Rightarrow> p | x # _ \<Rightarrow> Some x), [])"
  using assms
proof (induction hist arbitrary: p rule: rev_induct)
  case Nil
  show ?case by (simp add: pop_history_Nil)
next
  case (snoc x xs)
  then have "at_block x > t" and "\<forall>y \<in> set xs. at_block y > t" by simp_all
  then show ?case
    using pop_history_snoc [of t p xs x] snoc.IH [of "Some x"]
    by (cases xs) simp_all
qed

lemma pop_history_Some_mem:
  "pop_history t p hist = (Some h, rest) \<Longrightarrow> p = Some h \<or> h \<in> set hist"
proof (induction hist arbitrary: p rule: rev_induct)
  case Nil
  then show ?case by (simp add: pop_history_Nil)
next
  case (snoc x xs)
  show ?case
  proof (cases "at_block x \<le> t")
    case True
    with snoc.prems show ?thesis by (simp add: pop_history_snoc)
  next
    case False
    with snoc.prems have "pop_history t (Some x) xs = (Some h, rest)"
      by (simp add: pop_history_snoc)
    from snoc.IH [OF this] show ?thesis by auto
  qed
qed

lemma history_split:
  "(\<forall>x \<in> set hist. at_block x > t)
   \<or> (\<exists>older h newer. hist = older @ h # newer \<and> at_block h \<le> (t::int) \<and> (\<forall>x \<in> set newer. at_block x > t))"
proof (cases "\<exists>x \<in> set hist. at_block x \<le> t")
  case True
  from split_list_last_prop [OF True] show ?thesis by (auto simp: not_le)
next
  case False
  then show ?thesis by (auto simp: not_le)
qed

text \<open>The three outcomes of the loop body.\<close>

lemma prune_asset_no_history:
  "history a = [] \<Longrightarrow> prune_asset t coll a = coll"
  by (simp add: prune_asset_def pop_history_Nil)

lemma prune_asset_all_newer:
  assumes "history a \<noteq> []" and "\<forall>x \<in> set (history a). at_block x > t"
  shows "prune_asset t coll a = remove_docs (\<lambda>d. asset d = asset a) coll"
proof -
  from assms(1) obtain x xs where h: "history a = x # xs" by (cases "history a") auto
  with assms(2) have "at_block x > t" by simp
  with h show ?thesis
    using pop_history_not_found [OF assms(2), of None]
    by (simp add: prune_asset_def)
qed

lemma prune_asset_found:
  assumes "history a = older @ h # newer" and "at_block h \<le> t" and "\<forall>x \<in> set newer. at_block x > t"
  shows "prune_asset t coll a = save_doc (restored h (oid a) older) coll"
  using pop_history_found [OF assms(2,3), of None older] assms(1,2)
  by (simp add: prune_asset_def)

section \<open>Assets without history\<close>

text \<open>
  C3. The claim says that an asset whose \<open>_at_block\<close> is above the target ends at or
  below the target or is removed, and that an asset with empty \<open>_history\<close> is
  removed. In the code \<open>prev_ver\<close> stays \<open>None\<close> when the history is empty, the
  test \<open>if prev_ver\<close> skips both branches, and the asset stays as it is: after
  \<open>rollback(10)\<close> asset B of the scenario is still stored, current for block 50.
\<close>

theorem rollback_keeps_asset_without_history:
  "rollback example_config [] (PyInt 10) scenario_b
     = (scenario_b\<lparr> processed_blocks := [blk 10 100], blockinfo_cache := Map.empty \<rparr>,
        Inr (blk 10 100))
   \<and> tracked_assets (fst (rollback example_config [] (PyInt 10) scenario_b))
        = [tracked 1 ''B'' 50 1 []]
   \<and> history (tracked 1 ''B'' 50 1 []) = []
   \<and> at_block (tracked 1 ''B'' 50 1 []) = 50"
proof -
  have f: "find_one (\<lambda>b. block_index b = 10) (processed_blocks scenario_b) = Some (blk 10 100)"
    by (simp add: scenario_b_def empty_state_def blk_def find_one_def)
  have p: "0 < (10::int)" by simp
  have pr: "prune_assets 10 (tracked_assets scenario_b) = tracked_assets scenario_b"
    by (simp add: scenario_b_def empty_state_def tracked_def ver_def restored_def
        prune_assets_def prune_asset_def find_docs_def pop_history.simps)
  show ?thesis
    unfolding rollback_eval [OF p f] find_one_remove_gt f pr
    by (simp add: scenario_b_def empty_state_def remove_docs_def blk_def
          run_active_functions_def tracked_def ver_def restored_def)
qed

section \<open>Restoring the newest version at or before the target\<close>

lemma oid_restored [simp]: "oid (restored h i hist) = i"
  by (simp add: restored_def)

lemma at_block_restored [simp]: "at_block (restored h i hist) = at_block h"
  by (simp add: restored_def)

lemma asset_restored [simp]: "asset (restored h i hist) = asset h"
  by (simp add: restored_def)

lemma history_restored [simp]: "history (restored h i hist) = hist"
  by (simp add: restored_def)

lemma prune_asset_Cons:
  assumes "oid v \<noteq> oid a" and "asset v \<noteq> asset a"
  shows "prune_asset t (v # coll) a = v # prune_asset t coll a"
  using assms
  by (auto simp: prune_asset_def remove_docs_def split: prod.splits option.splits)

lemma fold_prune_Cons:
  assumes "\<forall>a \<in> set cursor. oid v \<noteq> oid a \<and> asset v \<noteq> asset a"
  shows "fold (\<lambda>a c. prune_asset t c a) cursor (v # coll)
           = v # fold (\<lambda>a c. prune_asset t c a) cursor coll"
  using assms
  by (induction cursor arbitrary: coll) (simp_all add: prune_asset_Cons)

lemma remove_docs_absent:
  "\<forall>d \<in> set coll. \<not> q d \<Longrightarrow> remove_docs q coll = coll"
  by (simp add: remove_docs_def)

text \<open>
  On a well-formed collection the iterations do not interfere: the loop maps every
  asset to its own outcome.
\<close>

lemma prune_assets_closed_form:
  "well_formed_assets coll \<Longrightarrow> prune_assets t coll = List.map_filter (pruned t) coll"
proof (induction coll)
  case Nil
  show ?case by (simp add: prune_assets_def find_docs_def map_filter_simps)
next
  case (Cons d coll)
  let ?step = "\<lambda>a c. prune_asset t c a"
  let ?cursor = "filter (\<lambda>a. at_block a > t) coll"
  from Cons.prems have wf: "well_formed_assets coll"
    and other: "\<forall>a \<in> set coll. oid d \<noteq> oid a \<and> asset d \<noteq> asset a"
    and names: "\<forall>h \<in> set (history d). asset h = asset d"
    by (auto simp: well_formed_assets_def)
  from Cons.IH [OF wf] have IH: "fold ?step ?cursor coll = List.map_filter (pruned t) coll"
    by (simp add: prune_assets_def find_docs_def)
  from other have other': "\<forall>a \<in> set ?cursor. oid d \<noteq> oid a \<and> asset d \<noteq> asset a" by simp
  show ?case
  proof (cases "at_block d > t")
    case False
    then have "prune_assets t (d # coll) = fold ?step ?cursor (d # coll)"
      by (simp add: prune_assets_def find_docs_def)
    also have "\<dots> = d # fold ?step ?cursor coll" by (rule fold_prune_Cons [OF other'])
    finally have "prune_assets t (d # coll) = d # fold ?step ?cursor coll" .
    moreover from False have "pruned t d = Some d" by (simp add: pruned_def)
    ultimately show ?thesis using IH by (simp add: map_filter_simps)
  next
    case True
    then have start: "prune_assets t (d # coll) = fold ?step ?cursor (prune_asset t (d # coll) d)"
      by (simp add: prune_assets_def find_docs_def)
    obtain p hist where pop: "pop_history t None (history d) = (p, hist)"
      by (cases "pop_history t None (history d)")
    show ?thesis
    proof (cases p)
      case None
      with pop have "prune_asset t (d # coll) d = d # coll" by (simp add: prune_asset_def)
      with start have "prune_assets t (d # coll) = d # fold ?step ?cursor coll"
        by (simp add: fold_prune_Cons [OF other'])
      moreover from True pop None have "pruned t d = Some d" by (simp add: pruned_def)
      ultimately show ?thesis using IH by (simp add: map_filter_simps)
    next
      case (Some prev_ver)
      show ?thesis
      proof (cases "at_block prev_ver > t")
        case True
        from other have "remove_docs (\<lambda>x. asset x = asset d) coll = coll"
          by (intro remove_docs_absent) auto
        with pop Some True have "prune_asset t (d # coll) d = coll"
          by (simp add: prune_asset_def remove_docs_def)
        moreover from \<open>at_block d > t\<close> pop Some True have "pruned t d = None"
          by (simp add: pruned_def)
        ultimately show ?thesis using start IH by (simp add: map_filter_simps)
      next
        case False
        let ?v = "restored prev_ver (oid d) hist"
        from pop Some have "prev_ver \<in> set (history d)"
          using pop_history_Some_mem [of t None "history d" prev_ver hist] by simp
        with names have "asset ?v = asset d" by simp
        with other' have v: "\<forall>a \<in> set ?cursor. oid ?v \<noteq> oid a \<and> asset ?v \<noteq> asset a" by simp
        from pop Some False have "prune_asset t (d # coll) d = ?v # coll"
          by (simp add: prune_asset_def)
        with start have "prune_assets t (d # coll) = ?v # fold ?step ?cursor coll"
          by (simp add: fold_prune_Cons [OF v])
        moreover from \<open>at_block d > t\<close> pop Some False have "pruned t d = Some ?v"
          by (simp add: pruned_def)
        ultimately show ?thesis using IH by (simp add: map_filter_simps)
      qed
    qed
  qed
qed

lemma pruned_oid: "pruned t a = Some b \<Longrightarrow> oid b = oid a"
  by (auto simp: pruned_def split: if_splits prod.splits option.splits)

lemma filter_map_filter_oid:
  "filter (\<lambda>d. oid d = i) (List.map_filter (pruned t) coll)
     = List.map_filter (pruned t) (filter (\<lambda>d. oid d = i) coll)"
proof (induction coll)
  case Nil
  show ?case by (simp add: map_filter_simps)
next
  case (Cons a coll)
  then show ?case
    by (cases "pruned t a") (auto simp: map_filter_simps dest: pruned_oid)
qed

lemma filter_oid_unique:
  "distinct (map oid coll) \<Longrightarrow> a \<in> set coll \<Longrightarrow> filter (\<lambda>d. oid d = oid a) coll = [a]"
proof (induction coll)
  case Nil
  then show ?case by simp
next
  case (Cons x coll)
  show ?case
  proof (cases "x = a")
    case True
    with Cons.prems(1) have "\<forall>d \<in> set coll. oid d \<noteq> oid a" by (auto simp: image_iff)
    then have "filter (\<lambda>d. oid d = oid a) coll = []" by (simp add: filter_empty_conv)
    with True show ?thesis by simp
  next
    case False
    with Cons.prems have "a \<in> set coll" and "oid x \<noteq> oid a" and "distinct (map oid coll)"
      by auto
    with Cons.IH show ?thesis by simp
  qed
qed

text \<open>
  C4. Let a tracked asset be current for a block above the target \<open>t\<close>, and let its
  history, oldest first, be \<open>older @ h # newer\<close> with \<open>h\<close> at or before \<open>t\<close> and
  every entry of \<open>newer\<close> above \<open>t\<close>, so that \<open>h\<close> is the newest entry at or before
  \<open>t\<close>. After \<open>rollback(t)\<close> on a well-formed collection exactly one document is
  stored under the asset's \<open>_id\<close>: its fields are those of \<open>h\<close> and its history is
  \<open>older\<close>. In the example of the specification, history \<open>[{_at_block: 100, 5}]\<close>
  with current \<open>{_at_block: 300, 10}\<close> and target 200 gives current
  \<open>{_at_block: 100, 5}\<close> with empty history (asset A of the example store).
\<close>

theorem rollback_restores_newest_version:
  assumes "0 < t" and "\<exists>b \<in> set (processed_blocks s). block_index b = t"
    and "rollback cfg hooks (PyInt t) s = (s', r)"
    and "well_formed_assets (tracked_assets s)"
    and "a \<in> set (tracked_assets s)" and "at_block a > t"
    and "history a = older @ h # newer" and "at_block h \<le> t"
    and "\<forall>x \<in> set newer. at_block x > t"
  shows "\<exists>d. filter (\<lambda>x. oid x = oid a) (tracked_assets s') = [d]
           \<and> asset_ver.truncate d = h \<and> history d = older"
proof -
  from assms(2) obtain b0 where "find_one (\<lambda>b. block_index b = t) (processed_blocks s) = Some b0"
    using find_one_None [of "\<lambda>b. block_index b = t" "processed_blocks s"] by auto
  from rollback_eval [OF assms(1) this, of cfg hooks] assms(3)
  have "tracked_assets s' = prune_assets t (tracked_assets s)" by auto
  also have "\<dots> = List.map_filter (pruned t) (tracked_assets s)"
    by (rule prune_assets_closed_form [OF assms(4)])
  finally have ta: "tracked_assets s' = List.map_filter (pruned t) (tracked_assets s)" .
  from assms(4) have "distinct (map oid (tracked_assets s))"
    by (simp add: well_formed_assets_def)
  from filter_oid_unique [OF this assms(5)]
  have one: "filter (\<lambda>d. oid d = oid a) (tracked_assets s) = [a]" .
  from pop_history_found [OF assms(8,9), of None older] assms(6,7,8)
  have "pruned t a = Some (restored h (oid a) older)"
    by (simp add: pruned_def)
  with ta one have "filter (\<lambda>x. oid x = oid a) (tracked_assets s') = [restored h (oid a) older]"
    by (simp add: filter_map_filter_oid map_filter_simps)
  moreover have "asset_ver.truncate (restored h (oid a) older) = h"
    by (simp add: asset_ver.truncate_def restored_def)
  ultimately show ?thesis by simp
qed

theorem rollback_restores_newest_version_witness:
  "0 < (200::int) \<and> (\<exists>b \<in> set (processed_blocks example_state). block_index b = 200)
   \<and> rollback example_config [\<lambda>t x. Suc x] (PyInt 200) example_state
        = (example_rolled_back, Inr (blk 200 2000))
   \<and> well_formed_assets (tracked_assets example_state)
   \<and> tracked 4 ''D'' 300 9 [ver ''D'' 100 1, ver ''D'' 150 2, ver ''D'' 250 3]
        \<in> set (tracked_assets example_state)
   \<and> at_block (ver ''D'' 150 2) \<le> 200 \<and> at_block (ver ''D'' 250 3) > 200
   \<and> (\<exists>d. filter (\<lambda>x. oid x = 4) (tracked_assets example_rolled_back) = [d]
           \<and> asset_ver.truncate d = ver ''D'' 150 2 \<and> history d = [ver ''D'' 100 1])
   \<and> tracked 1 ''A'' 300 10 [ver ''A'' 100 5] \<in> set (tracked_assets example_state)
   \<and> at_block (ver ''A'' 100 5) \<le> 200
   \<and> (\<exists>d. filter (\<lambda>x. oid x = 1) (tracked_assets example_rolled_back) = [d]
           \<and> asset_ver.truncate d = ver ''A'' 100 5 \<and> history d = [])"
proof -
  let ?D = "tracked 4 ''D'' 300 9 [ver ''D'' 100 1, ver ''D'' 150 2, ver ''D'' 250 3]"
  let ?A = "tracked 1 ''A'' 300 10 [ver ''A'' 100 5]"
  have p: "0 < (200::int)" by simp
  have e: "\<exists>b \<in> set (processed_blocks example_state). block_index b = 200"
    by (simp add: example_blocks blk_def)
  have memD: "?D \<in> set (tracked_assets example_state)" by (simp add: example_assets)
  have memA: "?A \<in> set (tracked_assets example_state)" by (simp add: example_assets)
  have curD: "at_block ?D > 200" by (simp add: tracked_def ver_def)
  have curA: "at_block ?A > 200" by (simp add: tracked_def ver_def)
  have histD: "history ?D = [ver ''D'' 100 1] @ ver ''D'' 150 2 # [ver ''D'' 250 3]"
    by (simp add: tracked_def)
  have histA: "history ?A = [] @ ver ''A'' 100 5 # []"
    by (simp add: tracked_def)
  have hD: "at_block (ver ''D'' 150 2) \<le> 200" by (simp add: ver_def)
  have hA: "at_block (ver ''A'' 100 5) \<le> 200" by (simp add: ver_def)
  have newD: "\<forall>x \<in> set [ver ''D'' 250 3]. at_block x > 200" by (simp add: ver_def)
  have newA: "\<forall>x \<in> set ([]::asset_ver list). at_block x > 200" by simp
  have oD: "oid ?D = 4" and oA: "oid ?A = 1" by (simp_all add: tracked_def)
  from rollback_restores_newest_version
         [OF p e rollback_example example_well_formed memD curD histD hD newD]
       rollback_restores_newest_version
         [OF p e rollback_example example_well_formed memA curA histA hA newA]
       p e rollback_example example_well_formed memD memA hD hA newD
  show ?thesis unfolding oD oA by simp
qed

section \<open>Rolling back twice\<close>

lemma map_oid_save_doc:
  "map oid (save_doc v coll) = (if oid v \<in> set (map oid coll) then map oid coll else map oid coll @ [oid v])"
  by (induction coll) auto

lemma distinct_save_doc:
  "distinct (map oid coll) \<Longrightarrow> distinct (map oid (save_doc v coll))"
  by (simp add: map_oid_save_doc)

lemma distinct_remove_docs:
  "distinct (map oid coll) \<Longrightarrow> distinct (map oid (remove_docs q coll))"
  by (simp add: remove_docs_def distinct_map_filter)

lemma set_save_doc:
  "distinct (map oid coll) \<Longrightarrow> set (save_doc v coll) = insert v {d \<in> set coll. oid d \<noteq> oid v}"
  by (induction coll) (auto simp: rev_image_eqI)

lemma pending_step:
  assumes "pending t (a # cursor) coll"
  shows "pending t cursor (prune_asset t coll a)"
proof -
  from assms have dist: "distinct (map oid coll)"
    and pend: "\<forall>d \<in> set coll. at_block d > t \<and> history d \<noteq> [] \<longrightarrow> d = a \<or> d \<in> set cursor"
    by (auto simp: pending_def)
  show ?thesis
  proof (cases "history a = []")
    case True
    with dist pend show ?thesis
      by (auto simp: pending_def prune_asset_no_history)
  next
    case False
    from history_split [of "history a" t] show ?thesis
    proof
      assume newer: "\<forall>x \<in> set (history a). at_block x > t"
      from prune_asset_all_newer [OF False newer]
      have eq: "prune_asset t coll a = remove_docs (\<lambda>d. asset d = asset a) coll" .
      from pend have "\<forall>d \<in> set (remove_docs (\<lambda>d. asset d = asset a) coll).
                        at_block d > t \<and> history d \<noteq> [] \<longrightarrow> d \<in> set cursor"
        by (auto simp: remove_docs_def)
      with dist eq show ?thesis
        by (simp add: pending_def distinct_remove_docs)
    next
      assume "\<exists>older h newer. history a = older @ h # newer \<and> at_block h \<le> t
                \<and> (\<forall>x \<in> set newer. at_block x > t)"
      then obtain older h newer where h: "history a = older @ h # newer" "at_block h \<le> t"
        "\<forall>x \<in> set newer. at_block x > t" by blast
      let ?v = "restored h (oid a) older"
      from prune_asset_found [OF h] have eq: "prune_asset t coll a = save_doc ?v coll" .
      from set_save_doc [OF dist, of ?v]
      have "set (save_doc ?v coll) = insert ?v {d \<in> set coll. oid d \<noteq> oid a}" by simp
      with pend h(2) have "\<forall>d \<in> set (save_doc ?v coll).
                        at_block d > t \<and> history d \<noteq> [] \<longrightarrow> d \<in> set cursor"
        by auto
      with dist eq show ?thesis
        by (simp add: pending_def distinct_save_doc)
    qed
  qed
qed

lemma pending_fold:
  "pending t cursor coll \<Longrightarrow> pending t [] (fold (\<lambda>a c. prune_asset t c a) cursor coll)"
proof (induction cursor arbitrary: coll)
  case Nil
  then show ?case by simp
next
  case (Cons a cursor)
  from Cons.IH [OF pending_step [OF Cons.prems]] show ?case by simp
qed

lemma prune_assets_settled:
  assumes "distinct (map oid coll)"
  shows "distinct (map oid (prune_assets t coll))"
    and "\<forall>d \<in> set (prune_assets t coll). at_block d > t \<longrightarrow> history d = []"
proof -
  from assms have "pending t (find_docs (\<lambda>a. at_block a > t) coll) coll"
    by (simp add: pending_def find_docs_def)
  from pending_fold [OF this] have "pending t [] (prune_assets t coll)"
    by (simp add: prune_assets_def)
  then show "distinct (map oid (prune_assets t coll))"
    and "\<forall>d \<in> set (prune_assets t coll). at_block d > t \<longrightarrow> history d = []"
    by (auto simp: pending_def)
qed

lemma fold_prune_no_history:
  "\<forall>a \<in> set cursor. history a = [] \<Longrightarrow> fold (\<lambda>a c. prune_asset t c a) cursor coll = coll"
  by (induction cursor arbitrary: coll) (simp_all add: prune_asset_no_history)

lemma prune_assets_no_history:
  assumes "\<forall>d \<in> set coll. at_block d > t \<longrightarrow> history d = []"
  shows "prune_assets t coll = coll"
proof -
  from assms have "\<forall>a \<in> set (find_docs (\<lambda>a. at_block a > t) coll). history a = []"
    by (simp add: find_docs_def)
  then show ?thesis by (simp add: prune_assets_def fold_prune_no_history)
qed

lemma prune_assets_twice:
  "distinct (map oid coll) \<Longrightarrow> prune_assets t (prune_assets t coll) = prune_assets t coll"
  by (rule prune_assets_no_history) (rule prune_assets_settled)

lemma remove_docs_twice: "remove_docs q (remove_docs q coll) = remove_docs q coll"
  by (simp add: remove_docs_def)

text \<open>
  C5. After a successful \<open>rollback(t)\<close> on a store whose tracked assets have unique
  \<open>_id\<close>s, a second \<open>rollback(t)\<close> succeeds, returns the same block and leaves
  every collection, every counter and the cache as the first call left them. The
  state owned by the extensions is what their hooks make of it when run again.
\<close>

theorem rollback_twice:
  assumes "0 < t" and "\<exists>b \<in> set (processed_blocks s). block_index b = t"
    and "distinct (map oid (tracked_assets s))"
    and "rollback cfg hooks (PyInt t) s = (s1, r1)"
  shows "\<exists>s2. rollback cfg hooks (PyInt t) s1 = (s2, r1)
           \<and> s2\<lparr> ext := ext s1 \<rparr> = s1
           \<and> ext s2 = run_active_functions hooks t (ext s1)"
proof -
  let ?q = "\<lambda>b. block_index b = t"
  let ?gt = "\<lambda>d::block. block_index d > t"
  from assms(2) obtain b0 where f: "find_one ?q (processed_blocks s) = Some b0"
    using find_one_None [of ?q "processed_blocks s"] by auto
  from rollback_eval [OF assms(1) f, of cfg hooks] assms(4)
  have s1: "s1 = s\<lparr> processed_blocks := remove_docs (\<lambda>d. block_index d > t) (processed_blocks s),
              balance_changes := remove_docs (\<lambda>d. block_index d > t) (balance_changes s),
              trades := remove_docs (\<lambda>d. block_index d > t) (trades s),
              asset_marketcap_history := remove_docs (\<lambda>d. block_index d > t) (asset_marketcap_history s),
              transaction_stats := remove_docs (\<lambda>d. block_index d > t) (transaction_stats s),
              tracked_assets := prune_assets t (tracked_assets s),
              ext := run_active_functions hooks t (ext s),
              last_message_index := - 1,
              caught_up := False,
              blockinfo_cache := Map.empty \<rparr>"
    and r1: "r1 = Inr b0"
    by (simp_all add: find_one_remove_gt f)
  from s1 have pb: "processed_blocks s1 = remove_docs (\<lambda>d. block_index d > t) (processed_blocks s)"
    by simp
  have f1: "find_one ?q (processed_blocks s1) = Some b0"
    unfolding pb find_one_remove_gt by (rule f)
  from s1 have ta: "tracked_assets s1 = prune_assets t (tracked_assets s)" by simp
  have pr: "prune_assets t (tracked_assets s1) = tracked_assets s1"
    unfolding ta by (rule prune_assets_twice [OF assms(3)])
  have rd: "remove_docs (\<lambda>d. block_index d > t) (processed_blocks s1) = processed_blocks s1"
    "remove_docs (\<lambda>d. block_index d > t) (balance_changes s1) = balance_changes s1"
    "remove_docs (\<lambda>d. block_index d > t) (trades s1) = trades s1"
    "remove_docs (\<lambda>d. block_index d > t) (asset_marketcap_history s1) = asset_marketcap_history s1"
    "remove_docs (\<lambda>d. block_index d > t) (transaction_stats s1) = transaction_stats s1"
    by (simp_all add: s1 remove_docs_twice)
  have cs: "last_message_index s1 = - 1" "caught_up s1 = False" "blockinfo_cache s1 = Map.empty"
    by (simp_all add: s1)
  have "rollback cfg hooks (PyInt t) s1 =
          (s1\<lparr> ext := run_active_functions hooks t (ext s1) \<rparr>, r1)"
    unfolding rollback_eval [OF assms(1) f1] r1 pr rd
    using cs f1 by simp
  then show ?thesis by simp
qed

theorem rollback_twice_witness:
  "0 < (200::int) \<and> (\<exists>b \<in> set (processed_blocks example_state). block_index b = 200)
   \<and> distinct (map oid (tracked_assets example_state))
   \<and> rollback example_config [\<lambda>t x. Suc x] (PyInt 200) example_state
        = (example_rolled_back, Inr (blk 200 2000))
   \<and> (\<exists>s2. rollback example_config [\<lambda>t x. Suc x] (PyInt 200) example_rolled_back
               = (s2, Inr (blk 200 2000))
           \<and> s2\<lparr> ext := ext example_rolled_back \<rparr> = example_rolled_back
           \<and> ext s2 = 2)"
proof -
  have p: "0 < (200::int)" by simp
  have e: "\<exists>b \<in> set (processed_blocks example_state). block_index b = 200"
    by (simp add: example_blocks blk_def)
  have d: "distinct (map oid (tracked_assets example_state))"
    by (simp add: example_assets tracked_def)
  have x: "run_active_functions [\<lambda>t x. Suc x] 200 (ext example_rolled_back) = 2"
    by (simp add: run_active_functions_def example_rolled_back_def)
  from rollback_twice [OF p e d rollback_example] p e d rollback_example
  show ?thesis unfolding x by simp
qed

section \<open>Resolving a time range\<close>

lemma start_block_index_resolved:
  "start_index_resolved cfg s start_dt
     (case start_dt of
        None \<Rightarrow> BLOCK_FIRST cfg
      | Some sd \<Rightarrow>
          (case find_one_descending (\<lambda>b. block_time b \<le> sd) block_time (processed_blocks s) of
             None \<Rightarrow> BLOCK_FIRST cfg
           | Some start_block \<Rightarrow> block_index start_block))"
proof (cases start_dt)
  case None
  then show ?thesis by (simp add: start_index_resolved_def)
next
  case (Some sd)
  let ?f = "find_one_descending (\<lambda>b. block_time b \<le> sd) block_time (processed_blocks s)"
  show ?thesis
  proof (cases ?f)
    case None
    then have "\<not> (\<exists>b \<in> set (processed_blocks s). block_time b \<le> sd)"
      by (simp add: find_one_descending_None)
    with Some None show ?thesis by (simp add: start_index_resolved_def)
  next
    case (Some b)
    from find_one_descending_Some [OF Some]
    have l: "latest_at_or_before sd (processed_blocks s) b"
      by (simp add: latest_at_or_before_def)
    then have "\<exists>b \<in> set (processed_blocks s). block_time b \<le> sd"
      by (auto simp: latest_at_or_before_def)
    with l Some \<open>start_dt = Some sd\<close> show ?thesis
      by (auto simp: start_index_resolved_def)
  qed
qed

lemma find_one_descending_all_None:
  "find_one_descending (\<lambda>b. True) key coll = None \<longleftrightarrow> coll = []"
  by (simp add: find_one_descending_None)

lemma end_block_index_resolved:
  "(end_dt \<noteq> None \<and> processed_blocks s = []
      \<and> get_block_indexes_for_dates cfg s start_dt end_dt = Inl TypeError)
   \<or> ((end_dt = None \<or> processed_blocks s \<noteq> [])
      \<and> (\<exists>ei. get_block_indexes_for_dates cfg s start_dt end_dt =
             Inr ((case start_dt of
                None \<Rightarrow> BLOCK_FIRST cfg
              | Some sd \<Rightarrow>
                  (case find_one_descending (\<lambda>b. block_time b \<le> sd) block_time (processed_blocks s) of
                     None \<Rightarrow> BLOCK_FIRST cfg
                   | Some start_block \<Rightarrow> block_index start_block)), ei)
            \<and> end_index_resolved s end_dt ei))"
proof (cases end_dt)
  case None
  then show ?thesis
    by (simp add: get_block_indexes_for_dates_def end_index_resolved_def)
next
  case (Some ed)
  let ?blocks = "processed_blocks s"
  let ?e = "find_one_ascending (\<lambda>b. block_time b \<ge> ed) block_time ?blocks"
  let ?h = "find_one_descending (\<lambda>b. True) block_index ?blocks"
  show ?thesis
  proof (cases ?e)
    case (Some b)
    from find_one_ascending_Some [OF Some]
    have e: "earliest_at_or_after ed ?blocks b"
      by (simp add: earliest_at_or_after_def)
    then have ex: "\<exists>b \<in> set ?blocks. ed \<le> block_time b"
      by (auto simp: earliest_at_or_after_def)
    then have ne: "?blocks \<noteq> []" by auto
    from e ex have "end_index_resolved s (Some ed) (block_index b)"
      by (auto simp: end_index_resolved_def)
    with ne Some \<open>end_dt = Some ed\<close> show ?thesis
      by (simp add: get_block_indexes_for_dates_def)
  next
    case None
    then have nex: "\<not> (\<exists>b \<in> set ?blocks. ed \<le> block_time b)"
      by (simp add: find_one_ascending_None)
    show ?thesis
    proof (cases ?h)
      case None
      then have "?blocks = []" by (simp add: find_one_descending_all_None)
      with None \<open>?e = None\<close> \<open>end_dt = Some ed\<close> show ?thesis
        by (simp add: get_block_indexes_for_dates_def)
    next
      case (Some b)
      from find_one_descending_Some [OF Some]
      have h: "highest_block ?blocks b"
        by (simp add: highest_block_def)
      then have ne: "?blocks \<noteq> []" by (auto simp: highest_block_def)
      from h nex have "end_index_resolved s (Some ed) (block_index b)"
        by (auto simp: end_index_resolved_def)
      with ne Some \<open>?e = None\<close> \<open>end_dt = Some ed\<close> show ?thesis
        by (simp add: get_block_indexes_for_dates_def)
    qed
  qed
qed

text \<open>
  What \<open>get_block_indexes_for_dates\<close> does on every input. With an end time and no
  processed block at all it raises \<open>TypeError\<close>. Otherwise it returns the start index
  and the end index as specified: the configured first block when the start time is
  absent or no block is at or before it, otherwise the index of a latest block at or
  before it; the latest-processed-block counter when the end time is absent,
  otherwise the index of an earliest block at or after the end time, or the highest
  stored block index when there is none.
\<close>

lemma block_indexes_resolved:
  "(end_dt \<noteq> None \<and> processed_blocks s = []
      \<and> get_block_indexes_for_dates cfg s start_dt end_dt = Inl TypeError)
   \<or> ((end_dt = None \<or> processed_blocks s \<noteq> [])
      \<and> (\<exists>si ei. get_block_indexes_for_dates cfg s start_dt end_dt = Inr (si, ei)
            \<and> start_index_resolved cfg s start_dt si
            \<and> end_index_resolved s end_dt ei))"
proof (cases "end_dt \<noteq> None \<and> processed_blocks s = []")
  case True
  with end_block_index_resolved [of end_dt s cfg start_dt]
  have "get_block_indexes_for_dates cfg s start_dt end_dt = Inl TypeError" by blast
  with True show ?thesis by simp
next
  case False
  with end_block_index_resolved [of end_dt s cfg start_dt]
  obtain ei where "get_block_indexes_for_dates cfg s start_dt end_dt =
             Inr (case start_dt of
                None \<Rightarrow> BLOCK_FIRST cfg
              | Some sd \<Rightarrow>
                  (case find_one_descending (\<lambda>b. block_time b \<le> sd) block_time (processed_blocks s) of
                     None \<Rightarrow> BLOCK_FIRST cfg
                   | Some start_block \<Rightarrow> block_index start_block), ei)"
    and "end_index_resolved s end_dt ei"
    by blast
  with start_block_index_resolved [of cfg s start_dt] False show ?thesis by blast
qed

lemma block_indexes_resolved_example:
  "get_block_indexes_for_dates example_config example_state (Some 2500) (Some 1500) = Inr (200, 200)
   \<and> start_index_resolved example_config example_state (Some 2500) 200
   \<and> end_index_resolved example_state (Some 1500) 200
   \<and> get_block_indexes_for_dates example_config example_state None None = Inr (100, 300)
   \<and> start_index_resolved example_config example_state None 100
   \<and> end_index_resolved example_state None 300
   \<and> get_block_indexes_for_dates example_config example_state (Some 500) (Some 3500) = Inr (100, 300)
   \<and> start_index_resolved example_config example_state (Some 500) 100
   \<and> end_index_resolved example_state (Some 3500) 300"
  using block_indexes_resolved [of "Some 1500" example_state example_config "Some 2500"]
    block_indexes_resolved [of None example_state example_config None]
    block_indexes_resolved [of "Some 3500" example_state example_config "Some 500"]
  by (simp add: example_dates_eval)

text \<open>
  C7. The claim says that the start index is at most the end index whenever a block
  at or after the configured first block exists. It fails for a start time after
  the end time: on the example store, start time 3000 and end time 1000 give
  \<open>(300, 100)\<close>.
\<close>

theorem block_range_not_ordered:
  "blk 300 3000 \<in> set (processed_blocks example_state)
   \<and> BLOCK_FIRST example_config \<le> block_index (blk 300 3000)
   \<and> get_block_indexes_for_dates example_config example_state (Some 3000) (Some 1000) = Inr (300, 100)
   \<and> \<not> (300::int) \<le> 100"
  by (simp add: example_dates_eval) (simp add: example_state_def example_config_def blk_def)

text \<open>
  C7, amended. The start index is at most the end index when the start time is not
  after the end time (where both are given), at least one block is stored, every
  stored block is at or after the configured first block, block times order the
  blocks as their indexes do, and the latest-processed-block counter is at least
  every stored index.
\<close>

theorem block_range_ordered:
  assumes nonempty: "processed_blocks s \<noteq> []"
    and first: "\<forall>b \<in> set (processed_blocks s). BLOCK_FIRST cfg \<le> block_index b"
    and mono: "\<forall>b \<in> set (processed_blocks s). \<forall>b' \<in> set (processed_blocks s).
                 block_time b \<le> block_time b' \<longrightarrow> block_index b \<le> block_index b'"
    and latest: "\<forall>b \<in> set (processed_blocks s). block_index b \<le> my_latest_block s"
    and window: "\<forall>sd ed. start_dt = Some sd \<and> end_dt = Some ed \<longrightarrow> sd \<le> ed"
  shows "\<exists>si ei. get_block_indexes_for_dates cfg s start_dt end_dt = Inr (si, ei) \<and> si \<le> ei"
proof -
  let ?blocks = "processed_blocks s"
  from end_block_index_resolved [of end_dt s cfg start_dt]
    start_block_index_resolved [of cfg s start_dt] nonempty
  obtain si ei where r: "get_block_indexes_for_dates cfg s start_dt end_dt = Inr (si, ei)"
    and st: "start_index_resolved cfg s start_dt si"
    and en: "end_index_resolved s end_dt ei"
    by auto
  from nonempty obtain b0 where b0: "b0 \<in> set ?blocks" by (cases ?blocks) auto
  \<comment> \<open>the start index is the first block, or the index of a block at or before the start time\<close>
  from st have sc: "si = BLOCK_FIRST cfg
      \<or> (\<exists>sd b. start_dt = Some sd \<and> b \<in> set ?blocks \<and> block_time b \<le> sd \<and> si = block_index b)"
    by (auto simp: start_index_resolved_def latest_at_or_before_def split: option.splits if_splits)
  \<comment> \<open>the end index is the counter, the highest index, or the index of a block at or after the end time\<close>
  from en have ec: "(end_dt = None \<and> ei = my_latest_block s)
      \<or> (\<exists>b. b \<in> set ?blocks \<and> (\<forall>b' \<in> set ?blocks. block_index b' \<le> block_index b) \<and> ei = block_index b)
      \<or> (\<exists>ed b. end_dt = Some ed \<and> b \<in> set ?blocks \<and> ed \<le> block_time b \<and> ei = block_index b)"
    by (auto simp: end_index_resolved_def earliest_at_or_after_def highest_block_def
          split: option.splits if_splits)
  have lower: "BLOCK_FIRST cfg \<le> ei"
  proof -
    from ec consider "ei = my_latest_block s" | b where "b \<in> set ?blocks" "ei = block_index b"
      by blast
    then show ?thesis
    proof cases
      case 1
      from first b0 have "BLOCK_FIRST cfg \<le> block_index b0" by blast
      also from latest b0 have "block_index b0 \<le> my_latest_block s" by blast
      finally show ?thesis using 1 by simp
    next
      case 2
      with first show ?thesis by blast
    qed
  qed
  have "si \<le> ei"
  proof -
    from sc consider "si = BLOCK_FIRST cfg"
      | sd b where "start_dt = Some sd" "b \<in> set ?blocks" "block_time b \<le> sd" "si = block_index b"
      by blast
    then show ?thesis
    proof cases
      case 1
      with lower show ?thesis by simp
    next
      case 2
      from ec consider "ei = my_latest_block s"
        | b' where "b' \<in> set ?blocks" "\<forall>x \<in> set ?blocks. block_index x \<le> block_index b'" "ei = block_index b'"
        | ed b' where "end_dt = Some ed" "b' \<in> set ?blocks" "ed \<le> block_time b'" "ei = block_index b'"
        by blast
      then show ?thesis
      proof cases
        case 1
        with latest 2 show ?thesis by auto
      next
        case 2
        with \<open>b \<in> set ?blocks\<close> \<open>si = block_index b\<close> show ?thesis by auto
      next
        case 3
        from window \<open>start_dt = Some sd\<close> 3(1) have "sd \<le> ed" by blast
        with \<open>block_time b \<le> sd\<close> 3(3) have "block_time b \<le> block_time b'" by linarith
        with mono \<open>b \<in> set ?blocks\<close> 3(2) have "block_index b \<le> block_index b'" by blast
        with \<open>si = block_index b\<close> 3(4) show ?thesis by simp
      qed
    qed
  qed
  with r show ?thesis by blast
qed

theorem block_range_ordered_witness:
  "processed_blocks example_state \<noteq> []
   \<and> list_all (\<lambda>b. BLOCK_FIRST example_config \<le> block_index b) (processed_blocks example_state)
   \<and> list_all (\<lambda>b. block_index b \<le> my_latest_block example_state) (processed_blocks example_state)
   \<and> (1500::int) \<le> 2500
   \<and> (\<exists>si ei. get_block_indexes_for_dates example_config example_state (Some 1500) (Some 2500)
                  = Inr (si, ei) \<and> si \<le> ei)"
proof -
  have nonempty: "processed_blocks example_state \<noteq> []"
    by (simp add: example_blocks)
  have first: "\<forall>b \<in> set (processed_blocks example_state). BLOCK_FIRST example_config \<le> block_index b"
    by (simp add: example_blocks example_config_def blk_def)
  have mono: "\<forall>b \<in> set (processed_blocks example_state). \<forall>b' \<in> set (processed_blocks example_state).
                block_time b \<le> block_time b' \<longrightarrow> block_index b \<le> block_index b'"
    by (simp add: example_blocks blk_def)
  have latest: "\<forall>b \<in> set (processed_blocks example_state). block_index b \<le> my_latest_block example_state"
    by (simp add: example_blocks blk_def) (simp add: example_state_def)
  have window: "\<forall>sd ed. Some 1500 = Some sd \<and> Some 2500 = Some ed \<longrightarrow> sd \<le> (ed::int)"
    by simp
  from block_range_ordered [OF nonempty first mono latest window] nonempty first latest
  show ?thesis by (simp add: list_all_iff)
qed

text \<open>Each of the other conditions is needed.\<close>

lemma block_range_needs_time_order:
  "get_block_indexes_for_dates example_config
     (empty_state\<lparr> processed_blocks := [blk 100 2000, blk 200 1000], my_latest_block := 200 \<rparr>)
     (Some 1500) (Some 1500) = Inr (200, 100)"
  by (simp add: get_block_indexes_for_dates_def find_one_descending_def find_one_ascending_def
        empty_state_def blk_def)

lemma block_range_needs_counter:
  "get_block_indexes_for_dates example_config
     (empty_state\<lparr> processed_blocks := [blk 100 1000, blk 200 2000], my_latest_block := 0 \<rparr>)
     None None = Inr (100, 0)"
  by (simp add: get_block_indexes_for_dates_def example_config_def empty_state_def)

lemma block_range_needs_first_block:
  "get_block_indexes_for_dates example_config
     (empty_state\<lparr> processed_blocks := [blk 50 500, blk 150 1500], my_latest_block := 150 \<rparr>)
     None (Some 400) = Inr (100, 50)"
  by (simp add: get_block_indexes_for_dates_def find_one_descending_def find_one_ascending_def
        example_config_def empty_state_def blk_def)

section \<open>Resetting the state\<close>

lemma reset_db_state_eval:
  "reset_db_state cfg s =
     (let i = (if app_config s = [] then Suc (next_oid s) else next_oid s);
          d = default_app_config cfg (case app_config s of [] \<Rightarrow> next_oid s | d0 # _ \<Rightarrow> config_oid d0)
      in (s\<lparr> processed_blocks := [], tracked_assets := [base_asset cfg (XCP cfg) i, base_asset cfg (BTC cfg) (Suc i)],
             trades := [], balance_changes := [], asset_market_info := [],
             asset_marketcap_history := [], pair_market_info := [], btc_open_orders := [],
             asset_extended_info := [], transaction_stats := [], feeds := [], wallet_stats := [],
             app_config := d # tl (app_config s), next_oid := Suc (Suc i),
             my_latest_block := 0, last_message_index := - 1 \<rparr>,
          Inr d))"
  by (cases "app_config s")
     (simp_all add: reset_db_state_def Let_def drop_coll_def update_upsert_def insert_tracked_asset_def)

text \<open>
  C8. \<open>reset_db_state\<close> returns, with the block-scoped collections (processed
  blocks, balance changes, trades, market-cap history, transaction statistics) empty,
  the tracked assets exactly the two genesis assets \<open>XCP\<close> and \<open>BTC\<close>, each current
  for the configured first block with empty history, the first document of
  \<open>app_config\<close> (the one returned) recording the database version, the
  latest-processed-block counter 0 and the last message index \<open>-1\<close>.
\<close>

theorem reset_db_state_result:
  "\<exists>s' d i. reset_db_state cfg s = (s', Inr d)
     \<and> processed_blocks s' = [] \<and> balance_changes s' = [] \<and> trades s' = []
     \<and> asset_marketcap_history s' = [] \<and> transaction_stats s' = []
     \<and> tracked_assets s' =
         [\<lparr> asset = XCP cfg, owner = None, divisible = True, locked = False, total_issued = None,
             at_block = BLOCK_FIRST cfg, oid = i, history = [] \<rparr>,
          \<lparr> asset = BTC cfg, owner = None, divisible = True, locked = False, total_issued = None,
             at_block = BLOCK_FIRST cfg, oid = Suc i, history = [] \<rparr>]
     \<and> app_config s' = d # tl (app_config s) \<and> db_version d = DB_VERSION cfg
     \<and> my_latest_block s' = 0 \<and> last_message_index s' = - 1"
  unfolding reset_db_state_eval Let_def
  by (simp add: base_asset_def default_app_config_def)

section \<open>An end time on a store without blocks\<close>

text \<open>
  C6. The claim says that with an end time and no block at or after it the end index
  falls back to the highest known block index. When no block is stored at all,
  \<open>find_one(sort=[("block_index", DESCENDING)])\<close> is \<open>None\<close> and the code subscripts
  it: the call raises \<open>TypeError\<close> and returns no index. The start path guards the
  same case (\<open>if not start_block\<close>), as \<open>rollback\<close> does for the block it looks up.
  The store that \<open>reset_db_state\<close> leaves behind is such a store, whatever the start
  time and the end time; so is the empty example store.
\<close>

theorem get_block_indexes_for_dates_no_blocks:
  "get_block_indexes_for_dates cfg (fst (reset_db_state cfg s)) start_dt (Some ed) = Inl TypeError
   \<and> get_block_indexes_for_dates example_config empty_state None (Some 1000) = Inl TypeError"
proof -
  have "processed_blocks (fst (reset_db_state cfg s)) = []"
    unfolding reset_db_state_eval Let_def by simp
  then have "find_one_ascending (\<lambda>b. block_time b \<ge> ed) block_time
               (processed_blocks (fst (reset_db_state cfg s))) = None"
    and "find_one_descending (\<lambda>b. True) block_index
               (processed_blocks (fst (reset_db_state cfg s))) = None"
    by (simp_all add: find_one_ascending_None find_one_descending_None)
  then have "get_block_indexes_for_dates cfg (fst (reset_db_state cfg s)) start_dt (Some ed)
               = Inl TypeError"
    by (simp add: get_block_indexes_for_dates_def)
  then show ?thesis by (simp add: example_dates_eval)
qed

section \<open>Collections outside the reparse\<close>

text \<open>
  Neither function touches the preferences, the login history, the chat handles or
  the chat history, and \<open>rollback\<close> does not touch the feeds.
\<close>

lemma reset_db_state_frame:
  "preferences (fst (reset_db_state cfg s)) = preferences s
   \<and> login_history (fst (reset_db_state cfg s)) = login_history s
   \<and> chat_handles (fst (reset_db_state cfg s)) = chat_handles s
   \<and> chat_history (fst (reset_db_state cfg s)) = chat_history s"
  unfolding reset_db_state_eval Let_def by simp

lemma rollback_frame:
  "preferences (fst (rollback cfg hooks arg s)) = preferences s
   \<and> login_history (fst (rollback cfg hooks arg s)) = login_history s
   \<and> chat_handles (fst (rollback cfg hooks arg s)) = chat_handles s
   \<and> chat_history (fst (rollback cfg hooks arg s)) = chat_history s
   \<and> feeds (fst (rollback cfg hooks arg s)) = feeds s"
  by (simp add: rollback_def Let_def split: pyarg.splits)

text \<open>
  C9. The claim says that \<open>reset_db_state\<close> leaves the feed subscriptions alone.
  The code drops the \<open>feeds\<close> collection: a store with one feed has none after
  the reset.
\<close>

theorem reset_db_state_drops_feeds:
  "feeds example_state = [[(''source'', BStr ''feed'')]]
   \<and> feeds (fst (reset_db_state example_config example_state)) = []"
  by (simp add: example_state_def empty_state_def reset_db_state_def Let_def drop_coll_def
        update_upsert_def insert_tracked_asset_def split: list.splits prod.splits)

end
